theory Spec2Isabelle
  imports Complex_Main
begin

section \<open>Data model\<close>

text \<open>
  The module \<^verbatim>\<open>src/mod.ts\<close> keeps its state in static fields of the class \<^verbatim>\<open>Mod\<close>
  and mutates tables owned by the host. JavaScript numbers are modelled as reals
  (finite values, exact arithmetic); an object \<^verbatim>\<open>Record<string, number>\<close> that is
  iterated with \<^verbatim>\<open>for ... in\<close> is an association list, whose keys are enumerated
  in list order and whose entries are read with \<open>map_of\<close>. A host table is a map
  over its own keys; what a lookup finds beyond them, on \<^verbatim>\<open>Object.prototype\<close>, is
  written out where the code looks a key up.
\<close>

type_synonym prices = "(string \<times> real) list"

text \<open>
  An entry of the host price table: the loop can store \<^verbatim>\<open>NaN\<close> there, the one
  value outside the reals that the module computes.
\<close>

datatype price = Number real | NaN

text \<open>\<^verbatim>\<open>interface Config { maxRetries; nextUpdate; maxIncreaseMult }\<close>\<close>

record Config =
  nextUpdate :: int
  maxIncreaseMult :: real
  maxRetries :: int

text \<open>An entry of \<^verbatim>\<open>handbookTable.Items\<close>: \<^verbatim>\<open>{ Id: string, Price: number }\<close>.\<close>

record HandbookItem =
  Id_hb :: string
  Price :: real

text \<open>
  A file on disk is missing, holds text that \<^verbatim>\<open>JSON.parse\<close> rejects, or holds a
  value. \<^verbatim>\<open>JSON.stringify\<close> followed by \<^verbatim>\<open>JSON.parse\<close> is taken to give the value back.
\<close>

datatype 'a disk_file = Absent | Garbled | Holds 'a

datatype path = pricesPath | configPath

datatype error =
    FetchError
  | JsonError
  | WriteError path
  | ReadError path

text \<open>What the outside world does during one run of the \<^verbatim>\<open>try\<close> block.\<close>

datatype response = Unreachable | NotJson | Body prices

record attempt =
  response :: response
  pricesWritable :: bool
  configWritable :: bool

datatype log_entry =
    Fetching
  | FetchedOk
  | Retrying int
  | RetryLimit
  | Applying
  | Clamped string price "real option"
  | Updated

text \<open>
  The static fields of \<^verbatim>\<open>Mod\<close>, the host tables
  (\<^verbatim>\<open>templates.prices\<close>, \<^verbatim>\<open>templates.items\<close>, \<^verbatim>\<open>templates.handbook.Items\<close>), the two
  files, the logger's output, the calls of \<^verbatim>\<open>generateDynamicPrices\<close>, and the
  environment: the \<open>k\<close>-th network call meets \<open>network k\<close>, the \<open>k\<close>-th reading of
  \<^verbatim>\<open>Math.floor(Date.now() / 1000)\<close> gives \<open>clock k\<close>.
\<close>

record 'i world =
  config :: Config
  originalPrices :: "string \<rightharpoonup> real"
  updateTimer :: bool
  configFile :: "Config disk_file"
  pricesFile :: "prices disk_file"
  priceTable :: "string \<rightharpoonup> price"
  itemTable :: "string \<rightharpoonup> 'i"
  handbookItems :: "HandbookItem list"
  logged :: "log_entry list"
  dynamicPriceRuns :: nat
  network :: "nat \<Rightarrow> attempt"
  netCalls :: nat
  clock :: "nat \<Rightarrow> int"
  clockReads :: nat

section \<open>The fetcher\<close>

definition info :: "log_entry \<Rightarrow> 'i world \<Rightarrow> 'i world" where
  "info m s = s\<lparr>logged := logged s @ [m]\<rparr>"

definition existsSync :: "'a disk_file \<Rightarrow> bool" where
  "existsSync f = (f \<noteq> Absent)"

text \<open>
  The body of the \<^verbatim>\<open>try\<close> block of \<^verbatim>\<open>fetchPrices\<close>: the network call and
  \<^verbatim>\<open>response.json()\<close>, the write of the price cache, the assignment to
  \<^verbatim>\<open>Mod.config.nextUpdate\<close>, the write of the config file, the log line. Each of the
  four fallible steps leaves through \<open>Inl\<close> with the state reached so far.
\<close>

definition tryFetch :: "'i world \<Rightarrow> (error + prices) \<times> 'i world" where
  "tryFetch s =
    (let a = network s (netCalls s);
         s1 = s\<lparr>netCalls := Suc (netCalls s)\<rparr>
     in case response a of
          Unreachable \<Rightarrow> (Inl FetchError, s1)
        | NotJson \<Rightarrow> (Inl JsonError, s1)
        | Body fetched \<Rightarrow>
            if \<not> pricesWritable a then (Inl (WriteError pricesPath), s1)
            else
              let s2 = s1\<lparr>pricesFile := Holds fetched\<rparr>;
                  s3 = s2\<lparr>config := (config s2)\<lparr>nextUpdate := clock s2 (clockReads s2) + 3600\<rparr>,
                          clockReads := Suc (clockReads s2)\<rparr>
              in if \<not> configWritable a then (Inl (WriteError configPath), s3)
                 else (Inr fetched, info FetchedOk (s3\<lparr>configFile := Holds (config s3)\<rparr>)))"

text \<open>
  \<^verbatim>\<open>static async fetchPrices(fetchPrices = true, retries = 1)\<close> of \<^verbatim>\<open>src/mod.ts\<close>.
  A call that omits the arguments is \<open>fetchPrices True 1\<close>.
\<close>

function fetchPrices :: "bool \<Rightarrow> int \<Rightarrow> 'i world \<Rightarrow> (error + prices) \<times> 'i world" where
  "fetchPrices fetch retries s =
    (if fetch \<or> \<not> existsSync (pricesFile s) then
       (case tryFetch (info Fetching s) of
          (Inr fetched, s') \<Rightarrow> (Inr fetched, s')
        | (Inl err, s') \<Rightarrow>
            if retries \<le> maxRetries (config s)
            then fetchPrices True (retries + 1) (info (Retrying retries) s')
            else (Inl err, (info RetryLimit s')\<lparr>updateTimer := False\<rparr>))
     else
       (case pricesFile s of
          Holds cached \<Rightarrow> (Inr cached, s)
        | _ \<Rightarrow> (Inl (ReadError pricesPath), s)))"
  by pat_completeness auto
termination
proof (relation "measure (\<lambda>(fetch, retries, s). nat (maxRetries (config s) + 1 - retries))")
  show "wf (measure (\<lambda>(fetch, retries, s::'i world). nat (maxRetries (config s) + 1 - retries)))"
    by simp
next
  fix fetch :: bool and retries :: int and s y :: "'i world" and x :: "error + prices"
  assume run: "(x, y) = tryFetch (info Fetching s)"
    and again: "retries \<le> maxRetries (config s)"
  from run have "y = snd (tryFetch (info Fetching s))"
    by (metis snd_conv)
  then have "maxRetries (config y) = maxRetries (config s)"
    by (simp add: tryFetch_def Let_def info_def split: response.split)
  with again
  show "((True, retries + 1, info (Retrying retries) y), (fetch, retries, s))
        \<in> measure (\<lambda>(fetch, retries, s). nat (maxRetries (config s) + 1 - retries))"
    by (simp add: info_def)
qed

declare fetchPrices.simps [simp del]

text \<open>
  \<^verbatim>\<open>static async fetchPrices(retries = 1)\<close> of the second source file
  (\<^verbatim>\<open>unnamed/part_000\<close>): no cache branch, the first log line inside the \<^verbatim>\<open>try\<close>.
\<close>

function fetchPrices_part000 :: "int \<Rightarrow> 'i world \<Rightarrow> (error + prices) \<times> 'i world" where
  "fetchPrices_part000 retries s =
    (case tryFetch (info Fetching s) of
       (Inr fetched, s') \<Rightarrow> (Inr fetched, s')
     | (Inl err, s') \<Rightarrow>
         if retries \<le> maxRetries (config s)
         then fetchPrices_part000 (retries + 1) (info (Retrying retries) s')
         else (Inl err, (info RetryLimit s')\<lparr>updateTimer := False\<rparr>))"
  by pat_completeness auto
termination
proof (relation "measure (\<lambda>(retries, s). nat (maxRetries (config s) + 1 - retries))")
  show "wf (measure (\<lambda>(retries, s::'i world). nat (maxRetries (config s) + 1 - retries)))"
    by simp
next
  fix retries :: int and s y :: "'i world" and x :: "error + prices"
  assume run: "(x, y) = tryFetch (info Fetching s)"
    and again: "retries \<le> maxRetries (config s)"
  from run have "y = snd (tryFetch (info Fetching s))"
    by (metis snd_conv)
  then have "maxRetries (config y) = maxRetries (config s)"
    by (simp add: tryFetch_def Let_def info_def split: response.split)
  with again
  show "((retries + 1, info (Retrying retries) y), (retries, s))
        \<in> measure (\<lambda>(retries, s). nat (maxRetries (config s) + 1 - retries))"
    by (simp add: info_def)
qed

declare fetchPrices_part000.simps [simp del]

section \<open>The price merger\<close>

text \<open>
  The base price of the loop body:
  \<^verbatim>\<open>let basePrice = Mod.originalPrices[itemId];
  if (!basePrice) basePrice = handbookTable.Items.find(x => x.Id === itemId)?.Price ?? 0;\<close>
  \<^verbatim>\<open>!basePrice\<close> holds for a missing entry and for the number zero.
\<close>

definition handbookPrice :: "HandbookItem list \<Rightarrow> string \<Rightarrow> real" where
  "handbookPrice items itemId =
    (case find (\<lambda>x. Id_hb x = itemId) items of Some x \<Rightarrow> Price x | None \<Rightarrow> 0)"

definition basePrice :: "(string \<rightharpoonup> real) \<Rightarrow> HandbookItem list \<Rightarrow> string \<Rightarrow> real" where
  "basePrice original items itemId =
    (case original itemId of
       Some p \<Rightarrow> if p \<noteq> 0 then p else handbookPrice items itemId
     | None \<Rightarrow> handbookPrice items itemId)"

text \<open>
  The tables are plain objects, so \<^verbatim>\<open>table[itemId]\<close> also finds the properties of
  \<^verbatim>\<open>Object.prototype\<close>. Each of them is a function or, for \<^verbatim>\<open>__proto__\<close>, the
  prototype object itself: a value that counts as true and that multiplication turns
  into \<^verbatim>\<open>NaN\<close>.
\<close>

definition objectPrototype :: "string list" where
  "objectPrototype =
    [''constructor'', ''__defineGetter__'', ''__defineSetter__'', ''hasOwnProperty'',
     ''__lookupGetter__'', ''__lookupSetter__'', ''isPrototypeOf'', ''propertyIsEnumerable'',
     ''toString'', ''valueOf'', ''__proto__'', ''toLocaleString'']"

definition inherits :: "string \<Rightarrow> bool" where
  "inherits itemId = (itemId \<in> set objectPrototype)"

text \<open>
  \<^verbatim>\<open>priceTable[itemId] = value\<close>. For \<^verbatim>\<open>__proto__\<close>, when the table has no entry of
  its own under that name, the assignment reaches the setter of the prototype, which
  ignores a number.
\<close>

definition setPrice :: "(string \<rightharpoonup> price) \<Rightarrow> string \<Rightarrow> price \<Rightarrow> (string \<rightharpoonup> price)" where
  "setPrice table itemId v =
    (if itemId = ''__proto__'' \<and> table itemId = None then table else table(itemId \<mapsto> v))"

text \<open>
  One round of \<^verbatim>\<open>for (const itemId in prices)\<close>. The guard
  \<^verbatim>\<open>!itemTable[itemId]\<close> skips the round only when the lookup finds nothing at all.
  \<^verbatim>\<open>Mod.originalPrices[itemId]\<close> that finds an inherited property makes
  \<^verbatim>\<open>maxPrice\<close> \<^verbatim>\<open>NaN\<close>, and then \<^verbatim>\<open>prices[itemId] <= maxPrice\<close> is false.
  \<^verbatim>\<open>prices[itemId]\<close> is \<open>map_of fetched itemId\<close>; for a key that is not there
  JavaScript compares \<^verbatim>\<open>undefined <= maxPrice\<close>, which is false too.
\<close>

definition applyPrice :: "prices \<Rightarrow> string \<Rightarrow> 'i world \<Rightarrow> 'i world" where
  "applyPrice fetched itemId s =
    (if itemTable s itemId = None \<and> \<not> inherits itemId then s
     else
       let maxPrice =
             (if originalPrices s itemId = None \<and> inherits itemId then NaN
              else Number (basePrice (originalPrices s) (handbookItems s) itemId
                             * maxIncreaseMult (config s)));
           clamped = (info (Clamped itemId maxPrice (map_of fetched itemId)) s)
                        \<lparr>priceTable := setPrice (priceTable s) itemId maxPrice\<rparr>
       in case maxPrice of
            Number m \<Rightarrow>
              (case map_of fetched itemId of
                 Some v \<Rightarrow>
                   if m \<noteq> 0 \<and> v \<le> m
                   then s\<lparr>priceTable := setPrice (priceTable s) itemId (Number v)\<rparr>
                   else clamped
               | None \<Rightarrow> clamped)
          | NaN \<Rightarrow> clamped)"

definition applyAll :: "prices \<Rightarrow> 'i world \<Rightarrow> 'i world" where
  "applyAll fetched s = fold (applyPrice fetched) (map fst fetched) s"

definition generateDynamicPrices :: "'i world \<Rightarrow> 'i world" where
  "generateDynamicPrices s = s\<lparr>dynamicPriceRuns := Suc (dynamicPriceRuns s)\<rparr>"

text \<open>
  Everything of \<^verbatim>\<open>updatePrices\<close> after the fetch, for the object that the loop
  iterates over.
\<close>

definition merge :: "prices \<Rightarrow> 'i world \<Rightarrow> 'i world" where
  "merge fetched s = info Updated (generateDynamicPrices (applyAll fetched (info Applying s)))"

text \<open>
  \<^verbatim>\<open>static async updatePrices(prices)\<close> of \<^verbatim>\<open>src/mod.ts\<close>. Its line 97,
  \<^verbatim>\<open>await prices = Mod.fetchPrices();\<close>, is no assignment: it runs as the two
  statements \<^verbatim>\<open>await prices; Mod.fetchPrices();\<close>. So \<^verbatim>\<open>prices\<close> stays what the caller
  passed, a boolean from \<^verbatim>\<open>postDBLoadAsync\<close> and nothing from \<^verbatim>\<open>setInterval\<close>, neither of
  which has a key for the loop to visit; and \<^verbatim>\<open>Mod.fetchPrices()\<close> is started with the
  default arguments and its promise dropped, so that neither its prices nor its error
  reach \<^verbatim>\<open>updatePrices\<close>.
\<close>

definition enumerableOf :: "bool option \<Rightarrow> prices" where
  "enumerableOf arg = []"

text \<open>
  What the caller of \<^verbatim>\<open>updatePrices\<close> has when the promise resolves. The started
  fetch is then waiting for its response.
\<close>

definition updatePrices_resolved :: "bool option \<Rightarrow> 'i world \<Rightarrow> bool \<times> 'i world" where
  "updatePrices_resolved arg s = (True, merge (enumerableOf arg) s)"

text \<open>
  The started fetch runs to its end when the response arrives, which is after
  \<^verbatim>\<open>updatePrices\<close> has returned and its caller has run on to its next pause. Its
  outcome is dropped; its writes, its log lines and its \<^verbatim>\<open>clearInterval\<close> remain. (The
  first log line of the fetch, written when it is started, is placed here as well.)
\<close>

definition settleFetch :: "'i world \<Rightarrow> 'i world" where
  "settleFetch s = snd (fetchPrices True 1 s)"

text \<open>\<^verbatim>\<open>updatePrices\<close> of \<^verbatim>\<open>src/mod.ts\<close> with the state once the started fetch has settled.\<close>

definition updatePrices :: "bool option \<Rightarrow> 'i world \<Rightarrow> (error + bool) \<times> 'i world" where
  "updatePrices arg s =
    (case updatePrices_resolved arg s of (ok, s') \<Rightarrow> (Inr ok, settleFetch s'))"

text \<open>\<^verbatim>\<open>static async updatePrices()\<close> of the second source file.\<close>

definition updatePrices_part000 :: "'i world \<Rightarrow> (error + bool) \<times> 'i world" where
  "updatePrices_part000 s =
    (case fetchPrices_part000 1 s of
       (Inl err, s') \<Rightarrow> (Inl err, s')
     | (Inr fetched, s') \<Rightarrow> (Inr True, merge fetched s'))"

section \<open>The scheduler\<close>

text \<open>
  \<^verbatim>\<open>structuredClone(priceTable)\<close>, taken when the host has loaded its tables. The
  snapshot is only read by the test \<^verbatim>\<open>!basePrice\<close> and, where that fails, as a number:
  an entry \<^verbatim>\<open>NaN\<close> passes the test as an entry 0 does, and is kept as 0.
\<close>

definition structuredClone :: "(string \<rightharpoonup> price) \<Rightarrow> (string \<rightharpoonup> real)" where
  "structuredClone table =
    (\<lambda>itemId. case table itemId of
       None \<Rightarrow> None
     | Some (Number p) \<Rightarrow> Some p
     | Some NaN \<Rightarrow> Some 0)"

text \<open>
  \<^verbatim>\<open>postDBLoadAsync\<close> of \<^verbatim>\<open>src/mod.ts\<close>: load the config, clone the price table,
  compare the time with \<^verbatim>\<open>nextUpdate\<close>, await \<^verbatim>\<open>updatePrices\<close>, register the timer.
  The fetch that \<^verbatim>\<open>updatePrices\<close> started settles after that.
\<close>

definition postDBLoadAsync :: "'i world \<Rightarrow> (error + unit) \<times> 'i world" where
  "postDBLoadAsync s =
    (case configFile s of
       Holds cfg \<Rightarrow>
         let s1 = s\<lparr>config := cfg, originalPrices := structuredClone (priceTable s)\<rparr>;
             currentTime = clock s1 (clockReads s1);
             s2 = s1\<lparr>clockReads := Suc (clockReads s1)\<rparr>;
             fetch = (currentTime > nextUpdate (config s2))
         in (case updatePrices_resolved (Some fetch) s2 of
               (ok, s3) \<Rightarrow>
                 if \<not> ok then (Inr (), settleFetch s3)
                 else (Inr (), settleFetch (s3\<lparr>updateTimer := True\<rparr>)))
     | _ \<Rightarrow> (Inl (ReadError configPath), s))"

text \<open>
  \<^verbatim>\<open>postDBLoadAsync\<close> of the second source file, which does not look at the time and
  awaits the fetch inside \<^verbatim>\<open>updatePrices\<close>.
\<close>

definition postDBLoadAsync_part000 :: "'i world \<Rightarrow> (error + unit) \<times> 'i world" where
  "postDBLoadAsync_part000 s =
    (case configFile s of
       Holds cfg \<Rightarrow>
         let s1 = s\<lparr>config := cfg, originalPrices := structuredClone (priceTable s)\<rparr>
         in (case updatePrices_part000 s1 of
               (Inl err, s3) \<Rightarrow> (Inl err, s3)
             | (Inr ok, s3) \<Rightarrow>
                 if \<not> ok then (Inr (), s3) else (Inr (), s3\<lparr>updateTimer := True\<rparr>))
     | _ \<Rightarrow> (Inl (ReadError configPath), s))"

text \<open>The callback of \<^verbatim>\<open>setInterval(Mod.updatePrices, 60 * 60 * 1000)\<close>.\<close>

definition onInterval :: "'i world \<Rightarrow> (error + bool) \<times> 'i world" where
  "onInterval s = updatePrices None s"

section \<open>Vocabulary of the properties\<close>

text \<open>
  An attempt succeeds when the whole \<^verbatim>\<open>try\<close> block runs through: the response
  arrives, parses, and both files can be written. Otherwise the block throws
  \<open>attemptError\<close>.
\<close>

definition succeeds :: "attempt \<Rightarrow> bool" where
  "succeeds a =
    (case response a of Body fetched \<Rightarrow> pricesWritable a \<and> configWritable a | _ \<Rightarrow> False)"

definition persistFails :: "attempt \<Rightarrow> bool" where
  "persistFails a =
    (case response a of
       Body fetched \<Rightarrow> \<not> (pricesWritable a \<and> configWritable a)
     | _ \<Rightarrow> False)"

definition attemptError :: "attempt \<Rightarrow> error" where
  "attemptError a =
    (case response a of
       Unreachable \<Rightarrow> FetchError
     | NotJson \<Rightarrow> JsonError
     | Body fetched \<Rightarrow>
         if \<not> pricesWritable a then WriteError pricesPath else WriteError configPath)"

text \<open>
  The base price as the specification words it: the snapshot entry if the item has
  one, else the handbook price, else zero.
\<close>

definition basePrice_spec :: "(string \<rightharpoonup> real) \<Rightarrow> HandbookItem list \<Rightarrow> string \<Rightarrow> real" where
  "basePrice_spec original items itemId =
    (case original itemId of
       Some p \<Rightarrow> p
     | None \<Rightarrow>
         (case find (\<lambda>x. Id_hb x = itemId) items of Some x \<Rightarrow> Price x | None \<Rightarrow> 0))"

text \<open>
  A concrete run: three retries are configured, the cache file exists and the next
  update is not yet due. The network is a parameter.
\<close>

definition demoFetched :: prices where
  "demoFetched = [(''a'', 200), (''b'', 120), (''c'', 50), (''q'', 9)]"

definition demoConfig :: Config where
  "demoConfig = \<lparr>nextUpdate = 5000, maxIncreaseMult = 3 / 2, maxRetries = 3\<rparr>"

definition demoWorld :: "(nat \<Rightarrow> attempt) \<Rightarrow> unit world" where
  "demoWorld net =
    \<lparr>config = demoConfig,
     originalPrices = [''a'' \<mapsto> 100, ''b'' \<mapsto> 100, ''q'' \<mapsto> 3, ''z'' \<mapsto> 7],
     updateTimer = True,
     configFile = Holds demoConfig,
     pricesFile = Holds [(''a'', 1)],
     priceTable = [''a'' \<mapsto> Number 100, ''b'' \<mapsto> Number 100, ''q'' \<mapsto> Number 3,
                   ''z'' \<mapsto> Number 7],
     itemTable = [''a'' \<mapsto> (), ''b'' \<mapsto> (), ''c'' \<mapsto> ()],
     handbookItems = [],
     logged = [],
     dynamicPriceRuns = 0,
     network = net,
     netCalls = 0,
     clock = (\<lambda>k. 1000 + int k),
     clockReads = 0\<rparr>"

definition online :: attempt where
  "online = \<lparr>response = Body demoFetched, pricesWritable = True, configWritable = True\<rparr>"

definition offline :: attempt where
  "offline = \<lparr>response = Unreachable, pricesWritable = True, configWritable = True\<rparr>"

definition diskFull :: attempt where
  "diskFull = \<lparr>response = Body demoFetched, pricesWritable = True, configWritable = False\<rparr>"

text \<open>A payload with a key that every JavaScript object inherits.\<close>

definition inheritedKey :: attempt where
  "inheritedKey =
    \<lparr>response = Body [(''toString'', 5)], pricesWritable = True, configWritable = True\<rparr>"

section \<open>Properties of the fetcher\<close>

lemma tryFetch_frame:
  "network (snd (tryFetch s)) = network s"
  "netCalls (snd (tryFetch s)) = Suc (netCalls s)"
  "updateTimer (snd (tryFetch s)) = updateTimer s"
  "priceTable (snd (tryFetch s)) = priceTable s"
  "itemTable (snd (tryFetch s)) = itemTable s"
  "originalPrices (snd (tryFetch s)) = originalPrices s"
  "handbookItems (snd (tryFetch s)) = handbookItems s"
  "clock (snd (tryFetch s)) = clock s"
  "maxRetries (config (snd (tryFetch s))) = maxRetries (config s)"
  "maxIncreaseMult (config (snd (tryFetch s))) = maxIncreaseMult (config s)"
  by (simp_all add: tryFetch_def Let_def info_def split: response.split)

lemma tryFetch_fails:
  "\<not> succeeds (network s (netCalls s)) \<Longrightarrow>
   fst (tryFetch s) = Inl (attemptError (network s (netCalls s)))"
  by (auto simp: tryFetch_def succeeds_def attemptError_def Let_def split: response.splits)

lemma tryFetch_succeeds:
  "succeeds (network s (netCalls s)) \<Longrightarrow>
   \<exists>fetched. response (network s (netCalls s)) = Body fetched \<and> fst (tryFetch s) = Inr fetched"
  by (simp add: tryFetch_def succeeds_def Let_def split: response.splits)

lemma info_frame [simp]:
  "network (info m s) = network s"
  "netCalls (info m s) = netCalls s"
  "updateTimer (info m s) = updateTimer s"
  "priceTable (info m s) = priceTable s"
  "itemTable (info m s) = itemTable s"
  "originalPrices (info m s) = originalPrices s"
  "handbookItems (info m s) = handbookItems s"
  "clock (info m s) = clock s"
  "clockReads (info m s) = clockReads s"
  "config (info m s) = config s"
  "pricesFile (info m s) = pricesFile s"
  "configFile (info m s) = configFile s"
  "dynamicPriceRuns (info m s) = dynamicPriceRuns s"
  by (simp_all add: info_def)

text \<open>One step of a live call.\<close>

lemma fetchPrices_live_ok:
  "fetch \<or> \<not> existsSync (pricesFile s) \<Longrightarrow> tryFetch (info Fetching s) = (Inr fetched, s') \<Longrightarrow>
   fetchPrices fetch retries s = (Inr fetched, s')"
  by (simp add: fetchPrices.simps)

lemma fetchPrices_live_retry:
  "fetch \<or> \<not> existsSync (pricesFile s) \<Longrightarrow> tryFetch (info Fetching s) = (Inl err, s') \<Longrightarrow>
   retries \<le> maxRetries (config s) \<Longrightarrow>
   fetchPrices fetch retries s = fetchPrices True (retries + 1) (info (Retrying retries) s')"
  by (subst fetchPrices.simps) simp

lemma fetchPrices_live_stop:
  "fetch \<or> \<not> existsSync (pricesFile s) \<Longrightarrow> tryFetch (info Fetching s) = (Inl err, s') \<Longrightarrow>
   \<not> retries \<le> maxRetries (config s) \<Longrightarrow>
   fetchPrices fetch retries s = (Inl err, (info RetryLimit s')\<lparr>updateTimer := False\<rparr>)"
  by (subst fetchPrices.simps) simp

lemma fetchPrices_exhaust:
  "nat (maxRetries (config s) + 1 - retries) = m \<Longrightarrow>
   fetch \<or> \<not> existsSync (pricesFile s) \<Longrightarrow>
   \<forall>k\<le>m. \<not> succeeds (network s (netCalls s + k)) \<Longrightarrow>
   fst (fetchPrices fetch retries s) = Inl (attemptError (network s (netCalls s + m)))
   \<and> netCalls (snd (fetchPrices fetch retries s)) = netCalls s + m + 1
   \<and> \<not> updateTimer (snd (fetchPrices fetch retries s))"
proof (induction m arbitrary: fetch retries s)
  case 0
  obtain r s' where run: "tryFetch (info Fetching s) = (r, s')"
    by (cases "tryFetch (info Fetching s)")
  from 0 have "\<not> succeeds (network (info Fetching s) (netCalls (info Fetching s)))"
    by simp
  from tryFetch_fails [OF this] run
  have r: "r = Inl (attemptError (network s (netCalls s)))"
    by simp
  from 0 have stop: "\<not> retries \<le> maxRetries (config s)"
    by simp
  have s': "s' = snd (tryFetch (info Fetching s))"
    using run by simp
  show ?case
    using fetchPrices_live_stop [OF "0.prems"(2) run [unfolded r] stop]
    by (simp add: s' tryFetch_frame info_def)
next
  case (Suc m)
  obtain r s' where run: "tryFetch (info Fetching s) = (r, s')"
    by (cases "tryFetch (info Fetching s)")
  from Suc.prems(3) [rule_format, of 0]
  have "\<not> succeeds (network (info Fetching s) (netCalls (info Fetching s)))"
    by simp
  from tryFetch_fails [OF this] run
  have r: "r = Inl (attemptError (network s (netCalls s)))"
    by simp
  from Suc.prems have again: "retries \<le> maxRetries (config s)"
    by simp
  have s': "s' = snd (tryFetch (info Fetching s))"
    using run by simp
  let ?t = "info (Retrying retries) s'"
  have step: "fetchPrices fetch retries s = fetchPrices True (retries + 1) ?t"
    using fetchPrices_live_retry [OF Suc.prems(2) run [unfolded r] again] .
  have t: "network s' = network s" "netCalls s' = Suc (netCalls s)"
    "maxRetries (config s') = maxRetries (config s)"
    by (simp_all add: s' tryFetch_frame)
  have m: "nat (maxRetries (config ?t) + 1 - (retries + 1)) = m"
    using Suc.prems(1) by (simp add: t)
  have fails: "\<forall>k\<le>m. \<not> succeeds (network ?t (netCalls ?t + k))"
    using Suc.prems(3) by (auto simp: t)
  from Suc.IH [OF m _ fails, of True] show ?case
    by (simp add: step t)
qed


lemma fetchPrices_recovers:
  "k \<le> nat (maxRetries (config s) + 1 - retries) \<Longrightarrow>
   fetch \<or> \<not> existsSync (pricesFile s) \<Longrightarrow>
   succeeds (network s (netCalls s + k)) \<Longrightarrow>
   \<not> isl (fst (fetchPrices fetch retries s))"
proof (induction k arbitrary: fetch retries s)
  case 0
  then have "succeeds (network (info Fetching s) (netCalls (info Fetching s)))"
    by simp
  from tryFetch_succeeds [OF this]
  obtain fetched where "fst (tryFetch (info Fetching s)) = Inr fetched"
    by blast
  then have "tryFetch (info Fetching s) = (Inr fetched, snd (tryFetch (info Fetching s)))"
    by (metis prod.collapse)
  from fetchPrices_live_ok [OF "0.prems"(2) this] show ?case
    by simp
next
  case (Suc k)
  obtain r s' where run: "tryFetch (info Fetching s) = (r, s')"
    by (cases "tryFetch (info Fetching s)")
  show ?case
  proof (cases r)
    case (Inr fetched)
    from fetchPrices_live_ok [OF Suc.prems(2) run [unfolded Inr]] show ?thesis
      by simp
  next
    case (Inl err)
    from Suc.prems(1) have again: "retries \<le> maxRetries (config s)"
      by simp
    have s': "s' = snd (tryFetch (info Fetching s))"
      using run by simp
    let ?t = "info (Retrying retries) s'"
    have step: "fetchPrices fetch retries s = fetchPrices True (retries + 1) ?t"
      using fetchPrices_live_retry [OF Suc.prems(2) run [unfolded Inl] again] .
    have t: "network s' = network s" "netCalls s' = Suc (netCalls s)"
      "maxRetries (config s') = maxRetries (config s)"
      by (simp_all add: s' tryFetch_frame)
    have k: "k \<le> nat (maxRetries (config ?t) + 1 - (retries + 1))"
      using Suc.prems(1) by (simp add: t)
    have good: "succeeds (network ?t (netCalls ?t + k))"
      using Suc.prems(3) by (simp add: t)
    from Suc.IH [OF k _ good, of True] show ?thesis
      by (simp add: step)
  qed
qed

lemma tryFetch_ok:
  "tryFetch s = (Inr fetched, s') \<Longrightarrow>
   pricesFile s' = Holds fetched \<and> configFile s' = Holds (config s')
   \<and> clockReads s' = Suc (clockReads s)
   \<and> nextUpdate (config s') = clock s (clockReads s) + 3600
   \<and> netCalls s' = Suc (netCalls s)
   \<and> response (network s (netCalls s)) = Body fetched"
  by (auto simp: tryFetch_def Let_def info_def split: response.splits if_splits)

lemma fetchPrices_frame:
  "nat (maxRetries (config s) + 1 - retries) = m \<Longrightarrow>
   priceTable (snd (fetchPrices fetch retries s)) = priceTable s
   \<and> itemTable (snd (fetchPrices fetch retries s)) = itemTable s
   \<and> originalPrices (snd (fetchPrices fetch retries s)) = originalPrices s
   \<and> handbookItems (snd (fetchPrices fetch retries s)) = handbookItems s
   \<and> maxIncreaseMult (config (snd (fetchPrices fetch retries s))) = maxIncreaseMult (config s)
   \<and> maxRetries (config (snd (fetchPrices fetch retries s))) = maxRetries (config s)
   \<and> network (snd (fetchPrices fetch retries s)) = network s
   \<and> clock (snd (fetchPrices fetch retries s)) = clock s"
proof (induction m arbitrary: fetch retries s rule: less_induct)
  case (less m)
  show ?case
  proof (cases "fetch \<or> \<not> existsSync (pricesFile s)")
    case False
    then show ?thesis
      by (subst (1 2 3 4 5 6 7 8) fetchPrices.simps) (simp split: disk_file.split)
  next
    case live: True
    obtain r s' where run: "tryFetch (info Fetching s) = (r, s')"
      by (cases "tryFetch (info Fetching s)")
    have s': "s' = snd (tryFetch (info Fetching s))"
      using run by simp
    show ?thesis
    proof (cases r)
      case (Inr fetched)
      from fetchPrices_live_ok [OF live run [unfolded Inr]] show ?thesis
        by (simp add: s' tryFetch_frame)
    next
      case (Inl err)
      show ?thesis
      proof (cases "retries \<le> maxRetries (config s)")
        case False
        from fetchPrices_live_stop [OF live run [unfolded Inl] False] show ?thesis
          by (simp add: s' tryFetch_frame)
      next
        case again: True
        let ?t = "info (Retrying retries) s'"
        have step: "fetchPrices fetch retries s = fetchPrices True (retries + 1) ?t"
          using fetchPrices_live_retry [OF live run [unfolded Inl] again] .
        have "nat (maxRetries (config ?t) + 1 - (retries + 1)) < m"
          using less.prems again by (simp add: s' tryFetch_frame)
        from less.IH [OF this refl, of True] show ?thesis
          by (simp add: step) (simp add: s' tryFetch_frame)
      qed
    qed
  qed
qed

lemma fetchPrices_ok:
  "nat (maxRetries (config s) + 1 - retries) = m \<Longrightarrow>
   fetch \<or> \<not> existsSync (pricesFile s) \<Longrightarrow>
   fetchPrices fetch retries s = (Inr fetched, s') \<Longrightarrow>
   pricesFile s' = Holds fetched \<and> configFile s' = Holds (config s')
   \<and> 0 < clockReads s'
   \<and> nextUpdate (config s') = clock s (clockReads s' - 1) + 3600
   \<and> netCalls s < netCalls s'
   \<and> response (network s (netCalls s' - 1)) = Body fetched"
proof (induction m arbitrary: fetch retries s rule: less_induct)
  case (less m)
  note live = less.prems(2)
  obtain r s1 where run: "tryFetch (info Fetching s) = (r, s1)"
    by (cases "tryFetch (info Fetching s)")
  have s1: "s1 = snd (tryFetch (info Fetching s))"
    using run by simp
  show ?case
  proof (cases r)
    case (Inr p)
    from fetchPrices_live_ok [OF live run [unfolded Inr]] less.prems(3)
    have "p = fetched" "s1 = s'"
      by simp_all
    with tryFetch_ok [OF run [unfolded Inr]] show ?thesis
      by simp
  next
    case (Inl err)
    show ?thesis
    proof (cases "retries \<le> maxRetries (config s)")
      case False
      from fetchPrices_live_stop [OF live run [unfolded Inl] False] less.prems(3)
      show ?thesis
        by simp
    next
      case again: True
      let ?t = "info (Retrying retries) s1"
      have step: "fetchPrices True (retries + 1) ?t = (Inr fetched, s')"
        using fetchPrices_live_retry [OF live run [unfolded Inl] again] less.prems(3)
        by simp
      have "nat (maxRetries (config ?t) + 1 - (retries + 1)) < m"
        using less.prems(1) again by (simp add: s1 tryFetch_frame)
      from less.IH [OF this refl _ step]
      show ?thesis
        by (simp add: s1 tryFetch_frame)
    qed
  qed
qed

lemma fetchPrices_netCalls:
  "nat (maxRetries (config s) + 1 - retries) = m \<Longrightarrow>
   fetch \<or> \<not> existsSync (pricesFile s) \<Longrightarrow>
   netCalls s < netCalls (snd (fetchPrices fetch retries s))"
proof (induction m arbitrary: fetch retries s rule: less_induct)
  case (less m)
  note live = less.prems(2)
  obtain r s' where run: "tryFetch (info Fetching s) = (r, s')"
    by (cases "tryFetch (info Fetching s)")
  have s': "s' = snd (tryFetch (info Fetching s))"
    using run by simp
  show ?case
  proof (cases r)
    case (Inr fetched)
    from fetchPrices_live_ok [OF live run [unfolded Inr]] show ?thesis
      by (simp add: s' tryFetch_frame)
  next
    case (Inl err)
    show ?thesis
    proof (cases "retries \<le> maxRetries (config s)")
      case False
      from fetchPrices_live_stop [OF live run [unfolded Inl] False] show ?thesis
        by (simp add: s' tryFetch_frame)
    next
      case again: True
      let ?t = "info (Retrying retries) s'"
      have step: "fetchPrices fetch retries s = fetchPrices True (retries + 1) ?t"
        using fetchPrices_live_retry [OF live run [unfolded Inl] again] .
      have "nat (maxRetries (config ?t) + 1 - (retries + 1)) < m"
        using less.prems(1) again by (simp add: s' tryFetch_frame)
      from less.IH [OF this refl, of True]
      have "netCalls ?t < netCalls (snd (fetchPrices True (retries + 1) ?t))"
        by simp
      then show ?thesis
        by (simp add: step) (simp add: s' tryFetch_frame)
    qed
  qed
qed

lemma fetchPrices_part000_eq:
  "nat (maxRetries (config s) + 1 - retries) = m \<Longrightarrow>
   fetchPrices_part000 retries s = fetchPrices True retries s"
proof (induction m arbitrary: retries s rule: less_induct)
  case (less m)
  obtain r s' where run: "tryFetch (info Fetching s) = (r, s')"
    by (cases "tryFetch (info Fetching s)")
  have s': "s' = snd (tryFetch (info Fetching s))"
    using run by simp
  show ?case
  proof (cases "\<exists>err. r = Inl err \<and> retries \<le> maxRetries (config s)")
    case False
    then show ?thesis
      by (subst fetchPrices_part000.simps, subst fetchPrices.simps)
         (auto simp: run split: sum.split)
  next
    case True
    then obtain err where err: "r = Inl err" and again: "retries \<le> maxRetries (config s)"
      by blast
    let ?t = "info (Retrying retries) s'"
    have "nat (maxRetries (config ?t) + 1 - (retries + 1)) < m"
      using less.prems(1) again by (simp add: s' tryFetch_frame)
    from less.IH [OF this refl]
    have "fetchPrices_part000 (retries + 1) ?t = fetchPrices True (retries + 1) ?t" .
    then show ?thesis
      by (subst fetchPrices_part000.simps, subst fetchPrices.simps)
         (simp add: run err again)
  qed
qed

section \<open>Properties of the merger\<close>

lemma inherits_proto [simp]: "inherits ''__proto__''" "inherits ''toString''"
  by (simp_all add: inherits_def objectPrototype_def)

lemma applyPrice_frame [simp]:
  "itemTable (applyPrice fetched k s) = itemTable s"
  "originalPrices (applyPrice fetched k s) = originalPrices s"
  "handbookItems (applyPrice fetched k s) = handbookItems s"
  "config (applyPrice fetched k s) = config s"
  "netCalls (applyPrice fetched k s) = netCalls s"
  "updateTimer (applyPrice fetched k s) = updateTimer s"
  by (simp_all add: applyPrice_def Let_def info_def split: option.split price.split)

lemma applyPrice_other:
  "k \<noteq> itemId \<Longrightarrow> priceTable (applyPrice fetched k s) itemId = priceTable s itemId"
  by (simp add: applyPrice_def setPrice_def Let_def info_def split: option.split price.split)

lemma applyPrice_absent:
  "itemTable s k = None \<Longrightarrow> \<not> inherits k \<Longrightarrow> applyPrice fetched k s = s"
  by (simp add: applyPrice_def)

lemma applyPrice_written:
  "itemTable s k \<noteq> None \<Longrightarrow> \<not> inherits k \<Longrightarrow> map_of fetched k = Some v \<Longrightarrow>
   priceTable (applyPrice fetched k s) k =
     Some (let maxPrice = basePrice (originalPrices s) (handbookItems s) k * maxIncreaseMult (config s)
           in if maxPrice \<noteq> 0 \<and> v \<le> maxPrice then Number v else Number maxPrice)"
  by (auto simp: applyPrice_def setPrice_def Let_def info_def)

lemma fold_applyPrice_frame [simp]:
  "itemTable (fold (applyPrice fetched) ks s) = itemTable s"
  "originalPrices (fold (applyPrice fetched) ks s) = originalPrices s"
  "handbookItems (fold (applyPrice fetched) ks s) = handbookItems s"
  "config (fold (applyPrice fetched) ks s) = config s"
  "netCalls (fold (applyPrice fetched) ks s) = netCalls s"
  "updateTimer (fold (applyPrice fetched) ks s) = updateTimer s"
  by (induction ks arbitrary: s) simp_all

lemma fold_applyPrice_untouched:
  "itemId \<notin> set ks \<Longrightarrow>
   priceTable (fold (applyPrice fetched) ks s) itemId = priceTable s itemId"
  by (induction ks arbitrary: s) (auto simp: applyPrice_other)

lemma fold_applyPrice_absent:
  "itemTable s itemId = None \<Longrightarrow> \<not> inherits itemId \<Longrightarrow>
   priceTable (fold (applyPrice fetched) ks s) itemId = priceTable s itemId"
proof (induction ks arbitrary: s)
  case Nil
  show ?case by simp
next
  case (Cons k ks)
  have "priceTable (applyPrice fetched k s) itemId = priceTable s itemId"
    using Cons.prems by (cases "k = itemId") (simp_all add: applyPrice_absent applyPrice_other)
  with Cons.IH [of "applyPrice fetched k s"] Cons.prems show ?case
    by simp
qed

lemma fold_applyPrice_written:
  "itemId \<in> set ks \<Longrightarrow> itemTable s itemId \<noteq> None \<Longrightarrow> \<not> inherits itemId \<Longrightarrow>
   map_of fetched itemId = Some v \<Longrightarrow>
   priceTable (fold (applyPrice fetched) ks s) itemId =
     Some (let maxPrice = basePrice (originalPrices s) (handbookItems s) itemId
                            * maxIncreaseMult (config s)
           in if maxPrice \<noteq> 0 \<and> v \<le> maxPrice then Number v else Number maxPrice)"
proof (induction ks arbitrary: s)
  case Nil
  then show ?case by simp
next
  case (Cons k ks)
  let ?s = "applyPrice fetched k s"
  show ?case
  proof (cases "itemId \<in> set ks")
    case True
    from Cons.IH [OF True, of ?s] Cons.prems show ?thesis
      by simp
  next
    case False
    with Cons.prems have k: "k = itemId"
      by simp
    have "priceTable (fold (applyPrice fetched) ks ?s) itemId = priceTable ?s itemId"
      using False by (rule fold_applyPrice_untouched)
    with applyPrice_written [of s itemId fetched v] Cons.prems show ?thesis
      by (simp add: k)
  qed
qed

lemma merge_priceTable:
  "priceTable (merge fetched s) = priceTable (fold (applyPrice fetched) (map fst fetched) (info Applying s))"
  by (simp add: merge_def applyAll_def generateDynamicPrices_def info_def)

lemma merge_frame [simp]:
  "netCalls (merge fetched s) = netCalls s"
  "updateTimer (merge fetched s) = updateTimer s"
  "config (merge fetched s) = config s"
  by (simp_all add: merge_def applyAll_def generateDynamicPrices_def info_def)

lemma merge_nothing [simp]: "priceTable (merge [] s) = priceTable s"
  by (simp add: merge_priceTable)

lemma settleFetch_frame [simp]:
  "priceTable (settleFetch s) = priceTable s"
  using fetchPrices_frame [OF refl, where s = s and retries = 1 and fetch = True]
  by (simp add: settleFetch_def)

lemma settleFetch_netCalls: "netCalls s < netCalls (settleFetch s)"
  unfolding settleFetch_def by (rule fetchPrices_netCalls [OF refl]) simp

lemma updatePrices_state:
  "updatePrices arg s = (Inr True, settleFetch (merge [] s))"
  by (simp add: updatePrices_def updatePrices_resolved_def enumerableOf_def)

lemma updatePrices_netCalls: "netCalls s < netCalls (snd (updatePrices arg s))"
  using settleFetch_netCalls [of "merge [] s"] by (simp add: updatePrices_state)

lemma updatePrices_part000_ok:
  "fst (fetchPrices True 1 s) = Inr fetched \<Longrightarrow>
   updatePrices_part000 s = (Inr True, merge fetched (snd (fetchPrices True 1 s)))"
  by (cases "fetchPrices True 1 s")
     (simp add: updatePrices_part000_def fetchPrices_part000_eq [OF refl])

lemma updatePrices_part000_netCalls: "netCalls s < netCalls (snd (updatePrices_part000 s))"
proof -
  have "netCalls s < netCalls (snd (fetchPrices True 1 s))"
    by (rule fetchPrices_netCalls [OF refl]) simp
  then show ?thesis
    by (cases "fetchPrices True 1 s")
       (auto simp: updatePrices_part000_def fetchPrices_part000_eq [OF refl] split: sum.split)
qed

lemma postDBLoadAsync_part000_netCalls:
  "configFile s = Holds cfg \<Longrightarrow> netCalls s < netCalls (snd (postDBLoadAsync_part000 s))"
proof -
  assume cfg: "configFile s = Holds cfg"
  let ?s1 = "s\<lparr>config := cfg, originalPrices := structuredClone (priceTable s)\<rparr>"
  have "netCalls ?s1 < netCalls (snd (updatePrices_part000 ?s1))"
    by (rule updatePrices_part000_netCalls)
  moreover have "netCalls (snd (postDBLoadAsync_part000 s)) = netCalls (snd (updatePrices_part000 ?s1))"
    by (cases "updatePrices_part000 ?s1")
       (auto simp: postDBLoadAsync_part000_def cfg Let_def split: sum.split)
  ultimately show ?thesis
    by simp
qed

text \<open>
  The second source file awaits the fetch and iterates over its result. There the
  loop leaves, for every fetched item of the item table whose identifier is not a name
  of \<^verbatim>\<open>Object.prototype\<close>, the fetched value if \<open>maxPrice\<close> is nonzero and the value
  is at most \<open>maxPrice\<close>, and \<open>maxPrice\<close> otherwise.
\<close>

lemma merge_cycle_clamps_part000:
  assumes "fst (fetchPrices_part000 1 s) = Inr fetched"
    and "map_of fetched itemId = Some v"
    and "itemTable s itemId = Some item"
    and "\<not> inherits itemId"
  shows "priceTable (snd (updatePrices_part000 s)) itemId =
    Some (let maxPrice = basePrice (originalPrices s) (handbookItems s) itemId
                           * maxIncreaseMult (config s)
          in if maxPrice \<noteq> 0 \<and> v \<le> maxPrice then Number v else Number maxPrice)"
proof -
  let ?s1 = "snd (fetchPrices True 1 s)"
  have fetched: "fst (fetchPrices True 1 s) = Inr fetched"
    using assms(1) by (simp add: fetchPrices_part000_eq [OF refl])
  have frame: "itemTable ?s1 = itemTable s" "originalPrices ?s1 = originalPrices s"
    "handbookItems ?s1 = handbookItems s"
    "maxIncreaseMult (config ?s1) = maxIncreaseMult (config s)"
    using fetchPrices_frame [OF refl, where s = s and retries = 1 and fetch = True] by simp_all
  have key: "itemId \<in> set (map fst fetched)"
    using assms(2) by (metis map_of_eq_None_iff option.distinct(1) set_map)
  have "priceTable (snd (updatePrices_part000 s)) itemId
      = priceTable (fold (applyPrice fetched) (map fst fetched) (info Applying ?s1)) itemId"
    by (simp add: updatePrices_part000_ok [OF fetched] merge_priceTable)
  also have "\<dots> = Some (let maxPrice = basePrice (originalPrices (info Applying ?s1))
                                 (handbookItems (info Applying ?s1)) itemId
                               * maxIncreaseMult (config (info Applying ?s1))
          in if maxPrice \<noteq> 0 \<and> v \<le> maxPrice then Number v else Number maxPrice)"
    using assms(3)
    by (intro fold_applyPrice_written [OF key _ assms(4) assms(2)]) (simp add: frame)
  finally show ?thesis
    by (simp add: frame)
qed

lemma demo_fetch_part000:
  "fst (fetchPrices_part000 1 (demoWorld (\<lambda>k. online))) = Inr demoFetched"
  by (simp add: fetchPrices_part000.simps tryFetch_def info_def demoWorld_def online_def Let_def)

lemma merge_cycle_clamps_part000_example:
  "priceTable (snd (updatePrices_part000 (demoWorld (\<lambda>k. online)))) ''a'' = Some (Number 150)
   \<and> priceTable (snd (updatePrices_part000 (demoWorld (\<lambda>k. online)))) ''b'' = Some (Number 120)
   \<and> priceTable (snd (updatePrices_part000 (demoWorld (\<lambda>k. online)))) ''c'' = Some (Number 0)"
proof -
  have keys: "\<not> inherits ''a''" "\<not> inherits ''b''" "\<not> inherits ''c''"
    by (simp_all add: inherits_def objectPrototype_def)
  have m: "map_of demoFetched ''a'' = Some 200" "map_of demoFetched ''b'' = Some 120"
    "map_of demoFetched ''c'' = Some 50"
    by (simp_all add: demoFetched_def)
  have i: "itemTable (demoWorld (\<lambda>k. online)) ''a'' = Some ()"
    "itemTable (demoWorld (\<lambda>k. online)) ''b'' = Some ()"
    "itemTable (demoWorld (\<lambda>k. online)) ''c'' = Some ()"
    by (simp_all add: demoWorld_def)
  from merge_cycle_clamps_part000 [OF demo_fetch_part000 m(1) i(1) keys(1)]
    merge_cycle_clamps_part000 [OF demo_fetch_part000 m(2) i(2) keys(2)]
    merge_cycle_clamps_part000 [OF demo_fetch_part000 m(3) i(3) keys(3)]
  show ?thesis
    by (simp add: demoWorld_def demoConfig_def basePrice_def handbookPrice_def)
qed

text \<open>
  In the second source file an identifier that is fetched, has no entry in the item
  table and is not a name of \<^verbatim>\<open>Object.prototype\<close> keeps its price-table entry.
\<close>

lemma unknown_item_not_written_part000:
  assumes "fst (fetchPrices_part000 1 s) = Inr fetched"
    and "itemId \<in> fst ` set fetched"
    and "itemTable s itemId = None"
    and "\<not> inherits itemId"
  shows "priceTable (snd (updatePrices_part000 s)) itemId = priceTable s itemId"
proof -
  let ?s1 = "snd (fetchPrices True 1 s)"
  have fetched: "fst (fetchPrices True 1 s) = Inr fetched"
    using assms(1) by (simp add: fetchPrices_part000_eq [OF refl])
  have frame: "itemTable ?s1 = itemTable s" "priceTable ?s1 = priceTable s"
    using fetchPrices_frame [OF refl, where s = s and retries = 1 and fetch = True] by simp_all
  have "priceTable (snd (updatePrices_part000 s)) itemId
      = priceTable (fold (applyPrice fetched) (map fst fetched) (info Applying ?s1)) itemId"
    by (simp add: updatePrices_part000_ok [OF fetched] merge_priceTable)
  also have "\<dots> = priceTable (info Applying ?s1) itemId"
    using assms(3) by (intro fold_applyPrice_absent assms(4)) (simp add: frame)
  finally show ?thesis
    by (simp add: frame)
qed

section \<open>The claims\<close>

text \<open>
  Claim C1 fails on \<^verbatim>\<open>src/mod.ts\<close>. The startup run \<^verbatim>\<open>updatePrices(true)\<close> fetches
  a payload with the price 200 for item \<open>a\<close>, which is in the item table with the
  base price 100 and \<open>maxPrice = 150\<close>, and stores the payload in the cache file; it
  returns true and leaves the price of \<open>a\<close> at 100, where the claim has 150. The loop
  has iterated over the argument \<^verbatim>\<open>true\<close>, not over the payload.
\<close>

theorem mod_ts_cycle_clamps_nothing:
  "pricesFile (snd (updatePrices (Some True) (demoWorld (\<lambda>k. online)))) = Holds demoFetched
   \<and> map_of demoFetched ''a'' = Some 200
   \<and> itemTable (demoWorld (\<lambda>k. online)) ''a'' = Some ()
   \<and> basePrice (originalPrices (demoWorld (\<lambda>k. online)))
        (handbookItems (demoWorld (\<lambda>k. online))) ''a''
       * maxIncreaseMult (config (demoWorld (\<lambda>k. online))) = 150
   \<and> fst (updatePrices (Some True) (demoWorld (\<lambda>k. online))) = Inr True
   \<and> priceTable (snd (updatePrices (Some True) (demoWorld (\<lambda>k. online)))) ''a''
       = Some (Number 100)"
proof -
  let ?w = "demoWorld (\<lambda>k. online)"
  have "pricesFile (settleFetch (merge [] ?w)) = Holds demoFetched"
    by (simp add: settleFetch_def fetchPrices.simps tryFetch_def merge_def applyAll_def
        generateDynamicPrices_def info_def demoWorld_def online_def Let_def)
  moreover have "map_of demoFetched ''a'' = Some 200"
    by (simp add: demoFetched_def)
  moreover have "basePrice (originalPrices ?w) (handbookItems ?w) ''a''
      * maxIncreaseMult (config ?w) = 150"
    by (simp add: demoWorld_def demoConfig_def basePrice_def)
  moreover have "priceTable (settleFetch (merge [] ?w)) ''a'' = Some (Number 100)"
    by (simp add: demoWorld_def)
  ultimately show ?thesis
    by (simp add: updatePrices_state) (simp add: demoWorld_def)
qed

text \<open>
  Claim C2 says that the snapshot entry is used whenever the item has one. The test
  \<^verbatim>\<open>!basePrice\<close> also rejects an entry that is zero: with a snapshot price of 0 and a
  handbook price of 100 the code resolves 100, the wording of the claim 0.
\<close>

theorem basePrice_zero_snapshot_counterexample:
  "basePrice [''a'' \<mapsto> 0] [\<lparr>Id_hb = ''a'', Price = 100\<rparr>] ''a'' = 100
   \<and> basePrice_spec [''a'' \<mapsto> 0] [\<lparr>Id_hb = ''a'', Price = 100\<rparr>] ''a'' = 0"
  by (simp add: basePrice_def basePrice_spec_def handbookPrice_def)

text \<open>
  Claim C2, amended. The snapshot entry is used when it is there and is not zero;
  when the item is missing from the snapshot or its entry is zero, the price of the
  first handbook entry with that identifier is used; when there is no such entry
  either, the base price is zero.
\<close>

theorem basePrice_resolution:
  "(original itemId = Some p \<and> p \<noteq> 0 \<longrightarrow> basePrice original items itemId = p)
   \<and> ((original itemId = None \<or> original itemId = Some 0)
        \<and> find (\<lambda>x. Id_hb x = itemId) items = Some entry
      \<longrightarrow> basePrice original items itemId = Price entry)
   \<and> ((original itemId = None \<or> original itemId = Some 0)
        \<and> find (\<lambda>x. Id_hb x = itemId) items = None
      \<longrightarrow> basePrice original items itemId = 0)"
  by (auto simp: basePrice_def handbookPrice_def)

theorem basePrice_resolution_witness:
  "basePrice [''a'' \<mapsto> 100] [\<lparr>Id_hb = ''a'', Price = 40\<rparr>] ''a'' = 100
   \<and> basePrice Map.empty [\<lparr>Id_hb = ''b'', Price = 7\<rparr>, \<lparr>Id_hb = ''a'', Price = 40\<rparr>] ''a'' = 40
   \<and> basePrice [''a'' \<mapsto> 0] [\<lparr>Id_hb = ''a'', Price = 40\<rparr>] ''a'' = 40
   \<and> basePrice [''a'' \<mapsto> 0] [\<lparr>Id_hb = ''b'', Price = 7\<rparr>] ''a'' = 0"
  using
    basePrice_resolution [of "[''a'' \<mapsto> 100]" "''a''" 100 "[\<lparr>Id_hb = ''a'', Price = 40\<rparr>]"]
    basePrice_resolution [of Map.empty "''a''" _
      "[\<lparr>Id_hb = ''b'', Price = 7\<rparr>, \<lparr>Id_hb = ''a'', Price = 40\<rparr>]"
      "\<lparr>Id_hb = ''a'', Price = 40\<rparr>"]
    basePrice_resolution [of "[''a'' \<mapsto> 0]" "''a''" _ "[\<lparr>Id_hb = ''a'', Price = 40\<rparr>]"
      "\<lparr>Id_hb = ''a'', Price = 40\<rparr>"]
    basePrice_resolution [of "[''a'' \<mapsto> 0]" "''a''" _ "[\<lparr>Id_hb = ''b'', Price = 7\<rparr>]"]
  by simp

text \<open>
  Claim C3. With \<open>maxRetries = N \<ge> 0\<close>, a live call of \<^verbatim>\<open>fetchPrices\<close> whose first
  \<open>N + 1\<close> attempts all fail makes exactly \<open>N + 1\<close> network calls, clears the timer
  and returns the error; if one of the first \<open>N + 1\<close> attempts succeeds, no error is
  returned.
\<close>

theorem fetchPrices_retry_budget:
  assumes "0 \<le> N" and "maxRetries (config s) = N"
    and "fetch \<or> \<not> existsSync (pricesFile s)"
  shows "((\<forall>k\<le>nat N. \<not> succeeds (network s (netCalls s + k))) \<longrightarrow>
            isl (fst (fetchPrices fetch 1 s))
            \<and> netCalls (snd (fetchPrices fetch 1 s)) = netCalls s + nat N + 1
            \<and> \<not> updateTimer (snd (fetchPrices fetch 1 s)))
       \<and> ((\<exists>k\<le>nat N. succeeds (network s (netCalls s + k))) \<longrightarrow>
            \<not> isl (fst (fetchPrices fetch 1 s)))"
proof -
  have budget: "nat (maxRetries (config s) + 1 - 1) = nat N"
    using assms(2) by simp
  show ?thesis
  proof (intro conjI impI)
    assume "\<forall>k\<le>nat N. \<not> succeeds (network s (netCalls s + k))"
    from fetchPrices_exhaust [OF budget assms(3) this]
    show "isl (fst (fetchPrices fetch 1 s))"
      and "netCalls (snd (fetchPrices fetch 1 s)) = netCalls s + nat N + 1"
      and "\<not> updateTimer (snd (fetchPrices fetch 1 s))"
      by simp_all
  next
    assume "\<exists>k\<le>nat N. succeeds (network s (netCalls s + k))"
    then obtain k where "k \<le> nat N" "succeeds (network s (netCalls s + k))"
      by blast
    with budget show "\<not> isl (fst (fetchPrices fetch 1 s))"
      by (intro fetchPrices_recovers [OF _ assms(3)]) simp_all
  qed
qed

theorem fetchPrices_retry_budget_witness:
  "isl (fst (fetchPrices True 1 (demoWorld (\<lambda>k. offline))))
   \<and> netCalls (snd (fetchPrices True 1 (demoWorld (\<lambda>k. offline)))) = 4
   \<and> \<not> updateTimer (snd (fetchPrices True 1 (demoWorld (\<lambda>k. offline))))
   \<and> \<not> isl (fst (fetchPrices True 1 (demoWorld (\<lambda>k. if k = 3 then online else offline))))"
proof -
  have down: "\<forall>k\<le>nat 3. \<not> succeeds (network (demoWorld (\<lambda>k. offline))
                (netCalls (demoWorld (\<lambda>k. offline)) + k))"
    by (simp add: demoWorld_def succeeds_def offline_def)
  have up: "\<exists>k\<le>nat 3. succeeds (network (demoWorld (\<lambda>k. if k = 3 then online else offline))
                (netCalls (demoWorld (\<lambda>k. if k = 3 then online else offline)) + k))"
    by (rule exI [of _ 3]) (simp add: demoWorld_def succeeds_def online_def)
  have cfg: "maxRetries (config (demoWorld net)) = 3" for net
    by (simp add: demoWorld_def demoConfig_def)
  from fetchPrices_retry_budget [of 3 "demoWorld (\<lambda>k. offline)" True, OF _ cfg]
    fetchPrices_retry_budget [of 3 "demoWorld (\<lambda>k. if k = 3 then online else offline)" True,
      OF _ cfg]
    down up
  show ?thesis
    by (simp add: demoWorld_def)
qed

text \<open>
  Claim C4 fails on the second source file, whose loop does iterate over the payload.
  The payload has the key \<^verbatim>\<open>toString\<close>; the item table has no such entry and neither
  has the price table. The guard \<^verbatim>\<open>!itemTable[itemId]\<close> finds the function that every
  object inherits and does not skip the key, and \<^verbatim>\<open>NaN\<close> is written to the price table
  under it.
\<close>

theorem inherited_key_written_part000:
  "fst (fetchPrices_part000 1 (demoWorld (\<lambda>k. inheritedKey))) = Inr [(''toString'', 5)]
   \<and> itemTable (demoWorld (\<lambda>k. inheritedKey)) ''toString'' = None
   \<and> priceTable (demoWorld (\<lambda>k. inheritedKey)) ''toString'' = None
   \<and> priceTable (snd (updatePrices_part000 (demoWorld (\<lambda>k. inheritedKey)))) ''toString''
       = Some NaN"
proof -
  let ?w = "demoWorld (\<lambda>k. inheritedKey)"
  have f: "fst (fetchPrices True 1 ?w) = Inr [(''toString'', 5)]"
    by (simp add: fetchPrices.simps tryFetch_def info_def demoWorld_def inheritedKey_def Let_def)
  have frame: "itemTable (snd (fetchPrices True 1 ?w)) = itemTable ?w"
    "originalPrices (snd (fetchPrices True 1 ?w)) = originalPrices ?w"
    "priceTable (snd (fetchPrices True 1 ?w)) = priceTable ?w"
    using fetchPrices_frame [OF refl, where s = ?w and retries = 1 and fetch = True] by simp_all
  have before: "itemTable ?w ''toString'' = None" "priceTable ?w ''toString'' = None"
    "originalPrices ?w ''toString'' = None"
    by (simp_all add: demoWorld_def)
  have "priceTable (snd (updatePrices_part000 ?w)) ''toString'' = Some NaN"
    by (simp add: updatePrices_part000_ok [OF f] merge_priceTable applyPrice_def setPrice_def
        Let_def frame before)
  with f before show ?thesis
    by (simp add: fetchPrices_part000_eq [OF refl])
qed

text \<open>
  Claim C5. When a live fetch returns prices, \<^verbatim>\<open>nextUpdate\<close> is the last clock reading
  plus 3600, the config file holds the config, and the price cache file holds the
  returned mapping, which is the payload of the last network response.
\<close>

theorem live_fetch_persists:
  assumes "fetch \<or> \<not> existsSync (pricesFile s)"
    and "fetchPrices fetch retries s = (Inr fetched, s')"
  shows "0 < clockReads s'
    \<and> nextUpdate (config s') = clock s (clockReads s' - 1) + 3600
    \<and> configFile s' = Holds (config s')
    \<and> pricesFile s' = Holds fetched
    \<and> response (network s (netCalls s' - 1)) = Body fetched"
  using fetchPrices_ok [OF refl assms] by simp

theorem live_fetch_persists_witness:
  "fetchPrices True 1 (demoWorld (\<lambda>k. if k = 0 then diskFull else online))
     = (Inr demoFetched, snd (fetchPrices True 1 (demoWorld (\<lambda>k. if k = 0 then diskFull else online))))
   \<and> nextUpdate (config (snd (fetchPrices True 1
        (demoWorld (\<lambda>k. if k = 0 then diskFull else online))))) = 4601
   \<and> configFile (snd (fetchPrices True 1 (demoWorld (\<lambda>k. if k = 0 then diskFull else online))))
       = Holds (demoConfig\<lparr>nextUpdate := 4601\<rparr>)
   \<and> pricesFile (snd (fetchPrices True 1 (demoWorld (\<lambda>k. if k = 0 then diskFull else online))))
       = Holds demoFetched"
proof -
  let ?w = "demoWorld (\<lambda>k. if k = 0 then diskFull else online)"
  have f: "fst (fetchPrices True 1 ?w) = Inr demoFetched"
    by (simp add: fetchPrices.simps tryFetch_def info_def demoWorld_def demoConfig_def
        online_def diskFull_def Let_def)
  then have run: "fetchPrices True 1 ?w = (Inr demoFetched, snd (fetchPrices True 1 ?w))"
    by (simp add: prod_eq_iff)
  have reads: "clockReads (snd (fetchPrices True 1 ?w)) = 2"
    by (simp add: fetchPrices.simps tryFetch_def info_def demoWorld_def demoConfig_def
        online_def diskFull_def Let_def)
  have cfg: "config (snd (fetchPrices True 1 ?w)) = demoConfig\<lparr>nextUpdate := 4601\<rparr>"
    by (simp add: fetchPrices.simps tryFetch_def info_def demoWorld_def demoConfig_def
        online_def diskFull_def Let_def)
  from live_fetch_persists [OF _ run] run reads cfg show ?thesis
    by (simp add: demoWorld_def)
qed

text \<open>
  Claim C6. Called with the fetch flag false while the price cache file exists,
  \<^verbatim>\<open>fetchPrices\<close> returns the parsed contents of the file and changes nothing: no
  network call, no write.
\<close>

theorem cached_prices_returned:
  "pricesFile s = Holds cached \<Longrightarrow> fetchPrices False retries s = (Inr cached, s)"
  by (simp add: fetchPrices.simps existsSync_def)

theorem cached_prices_returned_witness:
  "pricesFile (demoWorld (\<lambda>k. online)) = Holds [(''a'', 1)]
   \<and> fetchPrices False 1 (demoWorld (\<lambda>k. online)) = (Inr [(''a'', 1)], demoWorld (\<lambda>k. online))"
proof -
  have p: "pricesFile (demoWorld (\<lambda>k. online)) = Holds [(''a'', 1)]"
    by (simp add: demoWorld_def)
  from cached_prices_returned [OF p, of 1] p show ?thesis
    by simp
qed

text \<open>
  Claim C7. Every top-level run of the merge cycle makes a network call, whatever
  argument \<^verbatim>\<open>updatePrices\<close> receives: the run at startup, whatever the comparison of
  the time with \<^verbatim>\<open>nextUpdate\<close> gave and whether or not the cache file exists, and
  every run from the timer.
\<close>

theorem top_level_cycle_fetches_live:
  "netCalls s < netCalls (snd (updatePrices arg s))
   \<and> netCalls s < netCalls (snd (onInterval s))
   \<and> (configFile s = Holds cfg \<longrightarrow> netCalls s < netCalls (snd (postDBLoadAsync s)))"
proof (intro conjI impI)
  show "netCalls s < netCalls (snd (updatePrices arg s))"
    by (rule updatePrices_netCalls)
  show "netCalls s < netCalls (snd (onInterval s))"
    unfolding onInterval_def by (rule updatePrices_netCalls)
next
  assume cfg: "configFile s = Holds cfg"
  let ?s2 = "s\<lparr>config := cfg, originalPrices := structuredClone (priceTable s),
                clockReads := Suc (clockReads s)\<rparr>"
  let ?s4 = "(merge [] ?s2)\<lparr>updateTimer := True\<rparr>"
  have "netCalls ?s4 < netCalls (settleFetch ?s4)"
    by (rule settleFetch_netCalls)
  moreover have "snd (postDBLoadAsync s) = settleFetch ?s4"
    by (simp add: postDBLoadAsync_def cfg Let_def updatePrices_resolved_def enumerableOf_def)
  ultimately show "netCalls s < netCalls (snd (postDBLoadAsync s))"
    by simp
qed

theorem top_level_cycle_fetches_live_witness:
  "configFile (demoWorld (\<lambda>k. online)) = Holds demoConfig
   \<and> \<not> nextUpdate demoConfig < clock (demoWorld (\<lambda>k. online)) (clockReads (demoWorld (\<lambda>k. online)))
   \<and> existsSync (pricesFile (demoWorld (\<lambda>k. online)))
   \<and> netCalls (demoWorld (\<lambda>k. online)) < netCalls (snd (postDBLoadAsync (demoWorld (\<lambda>k. online))))"
proof -
  have c: "configFile (demoWorld (\<lambda>k. online)) = Holds demoConfig"
    by (simp add: demoWorld_def)
  from top_level_cycle_fetches_live [of "demoWorld (\<lambda>k. online)" None demoConfig] c
  show ?thesis
    by (simp add: demoWorld_def demoConfig_def existsSync_def)
qed

text \<open>
  Claim C8. \<^verbatim>\<open>updatePrices\<close> never returns false, and when the fetcher does not
  throw it returns true. (In \<^verbatim>\<open>src/mod.ts\<close> the fetch is not awaited, and
  \<^verbatim>\<open>updatePrices\<close> returns true in every case.)
\<close>

theorem updatePrices_returns_true:
  "fst (updatePrices arg s) \<noteq> Inr False
   \<and> (\<not> isl (fst (fetchPrices True 1 s)) \<longrightarrow> fst (updatePrices arg s) = Inr True)"
  by (simp add: updatePrices_state)

theorem updatePrices_returns_true_witness:
  "\<not> isl (fst (fetchPrices True 1 (demoWorld (\<lambda>k. online))))
   \<and> fst (updatePrices None (demoWorld (\<lambda>k. online))) = Inr True"
proof -
  have f: "fst (fetchPrices True 1 (demoWorld (\<lambda>k. online))) = Inr demoFetched"
    by (simp add: fetchPrices.simps tryFetch_def info_def demoWorld_def online_def Let_def)
  from updatePrices_returns_true [of None "demoWorld (\<lambda>k. online)"] f show ?thesis
    by simp
qed

text \<open>
  Claim C9. An identifier that is not a key of the fetched prices keeps the
  price-table entry it had before the cycle, present or not, in both source files.
\<close>

theorem unfetched_item_unchanged:
  assumes "fst (fetchPrices True 1 s) = Inr fetched"
    and "itemId \<notin> fst ` set fetched"
  shows "priceTable (snd (updatePrices arg s)) itemId = priceTable s itemId
    \<and> priceTable (snd (updatePrices_part000 s)) itemId = priceTable s itemId"
proof
  show "priceTable (snd (updatePrices arg s)) itemId = priceTable s itemId"
    by (simp add: updatePrices_state)
next
  let ?s1 = "snd (fetchPrices True 1 s)"
  have frame: "priceTable ?s1 = priceTable s"
    using fetchPrices_frame [OF refl, where s = s and retries = 1 and fetch = True] by simp
  have "priceTable (snd (updatePrices_part000 s)) itemId
      = priceTable (fold (applyPrice fetched) (map fst fetched) (info Applying ?s1)) itemId"
    by (simp add: updatePrices_part000_ok [OF assms(1)] merge_priceTable)
  also have "\<dots> = priceTable (info Applying ?s1) itemId"
    using assms(2) by (intro fold_applyPrice_untouched) simp
  finally show "priceTable (snd (updatePrices_part000 s)) itemId = priceTable s itemId"
    by (simp add: frame)
qed

theorem unfetched_item_unchanged_witness:
  "fst (fetchPrices True 1 (demoWorld (\<lambda>k. online))) = Inr demoFetched
   \<and> ''z'' \<notin> fst ` set demoFetched
   \<and> priceTable (demoWorld (\<lambda>k. online)) ''z'' = Some (Number 7)
   \<and> priceTable (snd (updatePrices None (demoWorld (\<lambda>k. online)))) ''z'' = Some (Number 7)
   \<and> priceTable (snd (updatePrices_part000 (demoWorld (\<lambda>k. online)))) ''z'' = Some (Number 7)"
proof -
  have f: "fst (fetchPrices True 1 (demoWorld (\<lambda>k. online))) = Inr demoFetched"
    by (simp add: fetchPrices.simps tryFetch_def info_def demoWorld_def online_def Let_def)
  have m: "''z'' \<notin> fst ` set demoFetched"
    by (simp add: demoFetched_def)
  from unfetched_item_unchanged [OF f m, of None] f m show ?thesis
    by (simp add: demoWorld_def)
qed

text \<open>
  Claim C10. A failure to write the price cache file or the config file, after the
  response has arrived and parsed, is handled like a failed fetch: with
  \<open>maxRetries = N \<ge> 0\<close> and such a failure in each of the first \<open>N + 1\<close> attempts,
  a live call makes \<open>N + 1\<close> network calls, each one a new fetch, then clears the
  timer and returns the write error of the last attempt.
\<close>

theorem persist_failure_retried:
  assumes "0 \<le> N" and "maxRetries (config s) = N"
    and "fetch \<or> \<not> existsSync (pricesFile s)"
    and "\<forall>k\<le>nat N. persistFails (network s (netCalls s + k))"
  shows "(fst (fetchPrices fetch 1 s) = Inl (WriteError pricesPath)
          \<or> fst (fetchPrices fetch 1 s) = Inl (WriteError configPath))
       \<and> fst (fetchPrices fetch 1 s) = Inl (attemptError (network s (netCalls s + nat N)))
       \<and> netCalls (snd (fetchPrices fetch 1 s)) = netCalls s + nat N + 1
       \<and> \<not> updateTimer (snd (fetchPrices fetch 1 s))"
proof -
  have budget: "nat (maxRetries (config s) + 1 - 1) = nat N"
    using assms(2) by simp
  have fails: "\<not> succeeds a" and err: "attemptError a \<in> {WriteError pricesPath, WriteError configPath}"
    if "persistFails a" for a
    using that by (auto simp: persistFails_def succeeds_def attemptError_def split: response.splits)
  have "\<forall>k\<le>nat N. \<not> succeeds (network s (netCalls s + k))"
    using assms(4) fails by blast
  from fetchPrices_exhaust [OF budget assms(3) this]
    err [OF assms(4) [rule_format, of "nat N"]]
  show ?thesis
    by auto
qed

theorem persist_failure_retried_witness:
  "persistFails diskFull
   \<and> maxRetries (config (demoWorld (\<lambda>k. diskFull))) = 3
   \<and> fst (fetchPrices True 1 (demoWorld (\<lambda>k. diskFull))) = Inl (WriteError configPath)
   \<and> netCalls (snd (fetchPrices True 1 (demoWorld (\<lambda>k. diskFull)))) = 4
   \<and> \<not> updateTimer (snd (fetchPrices True 1 (demoWorld (\<lambda>k. diskFull))))"
proof -
  have full: "\<forall>k\<le>nat 3. persistFails (network (demoWorld (\<lambda>k. diskFull))
                (netCalls (demoWorld (\<lambda>k. diskFull)) + k))"
    by (simp add: demoWorld_def persistFails_def diskFull_def)
  have cfg: "maxRetries (config (demoWorld (\<lambda>k. diskFull))) = 3"
    by (simp add: demoWorld_def demoConfig_def)
  have disk: "persistFails diskFull"
    by (simp add: persistFails_def diskFull_def)
  from persist_failure_retried [of 3 "demoWorld (\<lambda>k. diskFull)" True, OF _ cfg _ full] cfg disk
  show ?thesis
    by (simp add: demoWorld_def attemptError_def diskFull_def)
qed

end
